theory Spec2Isabelle
  imports Main "HOL-Library.Word"
begin

unbundle bit_operations_syntax

section \<open>Machine integers of the simulator\<close>

text \<open>
  Both variants of \<^verbatim>\<open>sim.c\<close> keep every piece of state in C globals of type
  \<^verbatim>\<open>int\<close> or \<^verbatim>\<open>unsigned int\<close>. Both are modelled as 32-bit words:
  \<^item> \<open>+\<close> and \<open>-\<close> wrap around modulo \<open>2 ^ 32\<close> (what the compiled program does; for
    \<^verbatim>\<open>int\<close> the C standard leaves the overflow undefined);
  \<^item> \<^verbatim>\<open>x << n\<close> is \<open>push_bit n x\<close>: the bits shifted beyond bit 31 are lost;
  \<^item> \<^verbatim>\<open>x >> n\<close> on an \<^verbatim>\<open>int\<close> is the arithmetic shift \<open>signed_drop_bit n x\<close>,
    on an \<^verbatim>\<open>unsigned int\<close> the logical shift \<open>drop_bit n x\<close>;
  \<^item> a comparison of \<^verbatim>\<open>int\<close>s reads the words through \<open>sint\<close>.
  The trace output governed by \<^verbatim>\<open>verbose\<close> changes no state and is left out.
\<close>

type_synonym word32 = "32 word"

definition MEM_SIZE_IN_WORDS :: int where
  "MEM_SIZE_IN_WORDS = 256 * 1024"

definition INPUT_WORD_LIMIT :: nat where
  "INPUT_WORD_LIMIT = 255"

section \<open>Processor state\<close>

text \<open>
  The arrays \<^verbatim>\<open>mem[MEM_SIZE_IN_WORDS]\<close> and \<^verbatim>\<open>reg[32]\<close> are functions from the index.
  Every index the program uses for \<^verbatim>\<open>reg\<close> is a 5-bit field, and every data access to
  \<^verbatim>\<open>mem\<close> is guarded by the assertion of \<^verbatim>\<open>read_mem\<close> and \<^verbatim>\<open>write_mem\<close>.
\<close>

record proc =
  mem :: "nat \<Rightarrow> word32"
  reg :: "nat \<Rightarrow> word32"
  xip :: word32
  fip :: word32
  halt_flag :: word32
  ir :: word32
  op1 :: word32
  op2 :: word32
  d :: word32
  s1 :: word32
  s2 :: word32
  imm16 :: word32
  scaled :: word32
  inst_fetches :: word32
  memory_reads :: word32
  memory_writes :: word32
  branches :: word32
  taken_branches :: word32

text \<open>
  The ways the process ends other than by returning from \<^verbatim>\<open>main\<close>:
  \<^verbatim>\<open>exit( 0 )\<close> in \<^verbatim>\<open>get_mem\<close>, \<^verbatim>\<open>exit( -1 )\<close> in \<^verbatim>\<open>unknown_op\<close>, a failed
  \<^verbatim>\<open>assert\<close>, and a read of an address the process does not have (see \<open>fetch\<close>).
\<close>

datatype fault = Too_Many_Words | Unknown_Instruction | Assertion_Failed | Segmentation_Fault

text \<open>The argument of \<^verbatim>\<open>exit\<close>, where the process ends through \<^verbatim>\<open>exit\<close>.\<close>

fun exit_code :: "fault \<Rightarrow> int option" where
  "exit_code Too_Many_Words = Some 0"
| "exit_code Unknown_Instruction = Some (- 1)"
| "exit_code Assertion_Failed = None"
| "exit_code Segmentation_Fault = None"

text \<open>Static storage: every global starts as zero.\<close>

definition init_proc :: proc where
  "init_proc = \<lparr>mem = (\<lambda>_. 0), reg = (\<lambda>_. 0), xip = 0, fip = 0, halt_flag = 0,
     ir = 0, op1 = 0, op2 = 0, d = 0, s1 = 0, s2 = 0, imm16 = 0, scaled = 0,
     inst_fetches = 0, memory_reads = 0, memory_writes = 0, branches = 0,
     taken_branches = 0\<rparr>"

section \<open>Loading and accessing memory\<close>

text \<open>
  \<^verbatim>\<open>get_mem\<close> reads words until \<^verbatim>\<open>scanf\<close> reports the end of the input; the input is
  the list of the words read. The test on \<^verbatim>\<open>count\<close> comes before the store.
\<close>

fun get_mem_loop :: "word32 list \<Rightarrow> nat \<Rightarrow> proc \<Rightarrow> fault + proc" where
  "get_mem_loop [] count p = Inr p"
| "get_mem_loop (w # ws) count p =
     (if count > INPUT_WORD_LIMIT then Inl Too_Many_Words
      else get_mem_loop ws (count + 1) (p\<lparr>mem := (mem p)(count := w)\<rparr>))"

definition get_mem :: "word32 list \<Rightarrow> proc \<Rightarrow> fault + proc" where
  "get_mem ws p = get_mem_loop ws 0 p"

definition read_mem :: "word32 \<Rightarrow> word32 \<Rightarrow> proc \<Rightarrow> fault + proc" where
  "read_mem eff_addr reg_index p =
     (let word_addr = signed_drop_bit 2 eff_addr in
      if 0 \<le> sint word_addr \<and> sint word_addr < MEM_SIZE_IN_WORDS
      then Inr (p\<lparr>reg := (reg p)(unat reg_index := mem p (unat word_addr)),
                  memory_reads := memory_reads p + 1\<rparr>)
      else Inl Assertion_Failed)"

definition write_mem :: "word32 \<Rightarrow> word32 \<Rightarrow> proc \<Rightarrow> fault + proc" where
  "write_mem eff_addr reg_index p =
     (let word_addr = signed_drop_bit 2 eff_addr in
      if 0 \<le> sint word_addr \<and> sint word_addr < MEM_SIZE_IN_WORDS
      then Inr (p\<lparr>mem := (mem p)(unat word_addr := reg p (unat reg_index)),
                  memory_writes := memory_writes p + 1\<rparr>)
      else Inl Assertion_Failed)"

section \<open>Decoding\<close>

definition decode :: "proc \<Rightarrow> proc" where
  "decode p = p\<lparr>op1 := signed_drop_bit 26 (ir p) AND 0x3f,
                op2 := signed_drop_bit 10 (ir p) AND 0x3f,
                d := signed_drop_bit 21 (ir p) AND 0x1f,
                s1 := signed_drop_bit 16 (ir p) AND 0x1f,
                s2 := ir p AND 0x1f,
                imm16 := ir p AND 0xffff,
                scaled := signed_drop_bit 9 (ir p) AND 1\<rparr>"

section \<open>Instruction handlers shared by both variants\<close>

text \<open>Reading and writing \<^verbatim>\<open>reg[x]\<close> for a field \<^verbatim>\<open>x\<close> of the instruction.\<close>

definition rg :: "proc \<Rightarrow> word32 \<Rightarrow> word32" where
  "rg p x = reg p (unat x)"

definition set_rg :: "word32 \<Rightarrow> word32 \<Rightarrow> proc \<Rightarrow> proc" where
  "set_rg x v p = p\<lparr>reg := (reg p)(unat x := v)\<rparr>"

definition halt :: "proc \<Rightarrow> proc" where
  "halt p = p\<lparr>halt_flag := 1\<rparr>"

definition imm_lda :: "proc \<Rightarrow> proc" where
  "imm_lda p = set_rg (d p) (rg p (s1 p) + imm16 p) p"

definition imm_add :: "proc \<Rightarrow> proc" where
  "imm_add p = set_rg (d p) (rg p (s1 p) + imm16 p) p"

definition imm_sub :: "proc \<Rightarrow> proc" where
  "imm_sub p = set_rg (d p) (rg p (s1 p) - imm16 p) p"

definition br :: "proc \<Rightarrow> fault + proc" where
  "br p =
     (let d26 = ir p AND 0x03ffffff in
      if d26 = 0 then Inl Assertion_Failed
      else
        let d26 = push_bit 6 d26;
            d26 = signed_drop_bit 6 d26
        in Inr (p\<lparr>fip := xip p + push_bit 2 d26,
                    branches := branches p + 1,
                    taken_branches := taken_branches p + 1\<rparr>))"

text \<open>The condition code of \<^verbatim>\<open>bcnd\<close>, lines \<^verbatim>\<open>sign\<close>, \<^verbatim>\<open>zero\<close> and \<^verbatim>\<open>flag\<close>.\<close>

definition bcnd_flag :: "word32 \<Rightarrow> word32" where
  "bcnd_flag r =
     (let sign = drop_bit 31 r;
          zero = (if push_bit 1 r = 0 then 1 else 0)
      in push_bit 1 sign OR zero)"

definition bcnd :: "proc \<Rightarrow> fault + proc" where
  "bcnd p =
     (let d16 = ir p AND 0x0000ffff in
      if d16 = 0 then Inl Assertion_Failed
      else
        let flag = bcnd_flag (rg p (s1 p));
            p1 = p\<lparr>branches := branches p + 1\<rparr>;
            d16 = push_bit 16 d16;
            d16 = signed_drop_bit 16 d16
        in if 1 AND drop_bit (unat flag) (d p1) = 1
           then Inr (p1\<lparr>fip := xip p1 + push_bit 2 d16,
                        taken_branches := taken_branches p1 + 1\<rparr>)
           else Inr p1)"

definition ext :: "proc \<Rightarrow> proc" where
  "ext p = set_rg (d p) (signed_drop_bit (unat (s2 p)) (rg p (s1 p))) p"

definition extu :: "proc \<Rightarrow> proc" where
  "extu p = set_rg (d p) (drop_bit (unat (s2 p)) (rg p (s1 p))) p"

definition mak :: "proc \<Rightarrow> proc" where
  "mak p = set_rg (d p) (push_bit (unat (s2 p)) (rg p (s1 p))) p"

text \<open>
  \<^verbatim>\<open>reg[d] = (reg[s1] << (32 - s2)) | (reg[s1] >> s2)\<close>, on \<^verbatim>\<open>int\<close>s: the right shift is
  arithmetic. The value computed is \<open>rot_value\<close>.
\<close>

definition rot_value :: "word32 \<Rightarrow> word32 \<Rightarrow> word32" where
  "rot_value v n = push_bit (unat (32 - n)) v OR signed_drop_bit (unat n) v"

definition rot :: "proc \<Rightarrow> proc" where
  "rot p = set_rg (d p) (rot_value (rg p (s1 p)) (s2 p)) p"

definition lda :: "proc \<Rightarrow> proc" where
  "lda p =
     (if scaled p \<noteq> 0
      then set_rg (d p) (rg p (s1 p) + push_bit 2 (rg p (s2 p))) p
      else set_rg (d p) (rg p (s1 p) + rg p (s2 p)) p)"

definition add :: "proc \<Rightarrow> proc" where
  "add p = set_rg (d p) (rg p (s1 p) + rg p (s2 p)) p"

definition sub :: "proc \<Rightarrow> proc" where
  "sub p = set_rg (d p) (rg p (s1 p) - rg p (s2 p)) p"

definition unknown_op :: "proc \<Rightarrow> fault + proc" where
  "unknown_op p = Inl Unknown_Instruction"

text \<open>
  The head of the loop body of \<^verbatim>\<open>main\<close>: fetch, advance, count. The program reads
  \<^verbatim>\<open>mem[ fip >> 2 ]\<close> without a check. Inside the array the word is the word of
  \<^verbatim>\<open>mem\<close>. Outside, C leaves the read undefined: what the process finds there is not
  decided by the program but by the layout of the process, which differs between the two
  variants. The model takes it as a parameter \<open>beyond\<close>: for a word index outside the
  array, the word that the read yields, or \<open>None\<close> when the address is not mapped and
  the process ends with a segmentation fault. In the loop \<open>beyond\<close> may depend on the
  whole state of the variant.
\<close>

type_synonym 's beyond = "'s \<Rightarrow> int \<Rightarrow> word32 option"

definition fetch :: "(int \<Rightarrow> word32 option) \<Rightarrow> proc \<Rightarrow> fault + proc" where
  "fetch beyond p =
     (let word_addr = signed_drop_bit 2 (fip p);
          w = (if 0 \<le> sint word_addr \<and> sint word_addr < MEM_SIZE_IN_WORDS
               then Some (mem p (unat word_addr))
               else beyond (sint word_addr))
      in case w of
           None \<Rightarrow> Inl Segmentation_Fault
         | Some v \<Rightarrow> Inr (p\<lparr>ir := v, xip := fip p, fip := fip p + 4,
                              inst_fetches := inst_fetches p + 1\<rparr>))"

section \<open>The simulator without cache\<close>

definition imm_ld :: "proc \<Rightarrow> fault + proc" where
  "imm_ld p = (let address = rg p (s1 p) + imm16 p in read_mem address (d p) p)"

definition imm_st :: "proc \<Rightarrow> fault + proc" where
  "imm_st p = (let address = rg p (s1 p) + imm16 p in write_mem address (d p) p)"

definition ld :: "proc \<Rightarrow> fault + proc" where
  "ld p =
     (if scaled p \<noteq> 0
      then let address = rg p (s1 p) + push_bit 2 (rg p (s2 p)) in read_mem address (d p) p
      else let address = rg p (s1 p) + rg p (s2 p) in read_mem address (d p) p)"

definition st :: "proc \<Rightarrow> fault + proc" where
  "st p =
     (if scaled p \<noteq> 0
      then let address = rg p (s1 p) + push_bit 2 (rg p (s2 p)) in write_mem address (d p) p
      else let address = rg p (s1 p) + rg p (s2 p) in write_mem address (d p) p)"

text \<open>The two nested \<^verbatim>\<open>switch\<close> statements of \<^verbatim>\<open>main\<close>.\<close>

definition dispatch :: "proc \<Rightarrow> fault + proc" where
  "dispatch p =
     (if op1 p = 0x00 then Inr (halt p)
      else if op1 p = 0x05 then imm_ld p
      else if op1 p = 0x09 then imm_st p
      else if op1 p = 0x0d then Inr (imm_lda p)
      else if op1 p = 0x1c then Inr (imm_add p)
      else if op1 p = 0x1d then Inr (imm_sub p)
      else if op1 p = 0x30 then br p
      else if op1 p = 0x3a then bcnd p
      else if op1 p = 0x3c then
        (if op2 p = 0x24 then Inr (ext p)
         else if op2 p = 0x26 then Inr (extu p)
         else if op2 p = 0x28 then Inr (mak p)
         else if op2 p = 0x2a then Inr (rot p)
         else unknown_op p)
      else if op1 p = 0x3d then
        (if op2 p = 0x05 then ld p
         else if op2 p = 0x09 then st p
         else if op2 p = 0x0d then Inr (lda p)
         else if op2 p = 0x1c then Inr (add p)
         else if op2 p = 0x1d then Inr (sub p)
         else unknown_op p)
      else unknown_op p)"

text \<open>One pass through the body of the \<^verbatim>\<open>while\<close> loop, ending with \<^verbatim>\<open>reg[ 0 ] = 0\<close>.\<close>

definition cycle :: "proc beyond \<Rightarrow> proc \<Rightarrow> fault + proc" where
  "cycle beyond p =
     (case fetch (beyond p) p of
        Inl e \<Rightarrow> Inl e
      | Inr p1 \<Rightarrow>
          (case dispatch (decode p1) of
             Inl e \<Rightarrow> Inl e
           | Inr p2 \<Rightarrow> Inr (p2\<lparr>reg := (reg p2)(0 := 0)\<rparr>)))"

text \<open>
  \<^verbatim>\<open>while( !halt_flag )\<close> may run forever, so the loop takes fuel: the number of passes it
  may make. \<open>None\<close> means that the fuel ran out before the loop ended.
\<close>

fun run :: "proc beyond \<Rightarrow> nat \<Rightarrow> proc \<Rightarrow> (fault + proc) option" where
  "run beyond 0 p = (if halt_flag p \<noteq> 0 then Some (Inr p) else None)"
| "run beyond (Suc n) p =
     (if halt_flag p \<noteq> 0 then Some (Inr p)
      else case cycle beyond p of Inl e \<Rightarrow> Some (Inl e) | Inr p' \<Rightarrow> run beyond n p')"

text \<open>
  \<^verbatim>\<open>main\<close> after the command line, which only sets \<^verbatim>\<open>verbose\<close>: load the image, then
  run the loop. The result \<open>Some (Inr p)\<close> is the return from \<^verbatim>\<open>main\<close> with the final
  state \<open>p\<close>, from which the statistics are printed.
\<close>

definition main :: "proc beyond \<Rightarrow> word32 list \<Rightarrow> nat \<Rightarrow> (fault + proc) option" where
  "main beyond input fuel =
     (case get_mem input init_proc of
        Inl e \<Rightarrow> Some (Inl e)
      | Inr p \<Rightarrow> run beyond fuel p)"

text \<open>The four numbers printed first under \<^verbatim>\<open>execution statistics\<close>.\<close>

definition statistics :: "proc \<Rightarrow> word32 \<times> word32 \<times> word32 \<times> word32" where
  "statistics p = (inst_fetches p, memory_reads p, memory_writes p, branches p)"

section \<open>Cache directory\<close>

definition LINES_PER_BANK :: nat where
  "LINES_PER_BANK = 64"

text \<open>
  \<^verbatim>\<open>valid[2][LINES_PER_BANK]\<close>, \<^verbatim>\<open>dirty\<close> and \<^verbatim>\<open>tag\<close> are indexed by bank, then by
  line; \<^verbatim>\<open>lru[LINES_PER_BANK]\<close> by line. All are \<^verbatim>\<open>unsigned int\<close>, as the counters.
\<close>

record cache_dir =
  valid :: "nat \<Rightarrow> nat \<Rightarrow> word32"
  dirty :: "nat \<Rightarrow> nat \<Rightarrow> word32"
  tag :: "nat \<Rightarrow> nat \<Rightarrow> word32"
  lru :: "nat \<Rightarrow> word32"
  cache_reads :: word32
  cache_writes :: word32
  hits :: word32
  misses :: word32
  write_backs :: word32

definition zero_cache :: cache_dir where
  "zero_cache = \<lparr>valid = (\<lambda>_ _. 0), dirty = (\<lambda>_ _. 0), tag = (\<lambda>_ _. 0), lru = (\<lambda>_. 0),
     cache_reads = 0, cache_writes = 0, hits = 0, misses = 0, write_backs = 0\<rparr>"

text \<open>The assignment \<^verbatim>\<open>a[bank][index] = v\<close>.\<close>

definition upd2 :: "(nat \<Rightarrow> nat \<Rightarrow> word32) \<Rightarrow> nat \<Rightarrow> nat \<Rightarrow> word32 \<Rightarrow> nat \<Rightarrow> nat \<Rightarrow> word32" where
  "upd2 a bank index v = a(bank := (a bank)(index := v))"

definition cache_init_line :: "nat \<Rightarrow> cache_dir \<Rightarrow> cache_dir" where
  "cache_init_line i c =
     c\<lparr>lru := (lru c)(i := 0),
       valid := upd2 (upd2 (valid c) 0 i 0) 1 i 0,
       dirty := upd2 (upd2 (dirty c) 0 i 0) 1 i 0,
       tag := upd2 (upd2 (tag c) 0 i 0) 1 i 0\<rparr>"

definition cache_init :: "cache_dir \<Rightarrow> cache_dir" where
  "cache_init c =
     (fold cache_init_line [0 ..< LINES_PER_BANK] c)
       \<lparr>cache_reads := 0, cache_writes := 0, hits := 0, misses := 0, write_backs := 0\<rparr>"


text \<open>
  \<^verbatim>\<open>cache_access\<close>: \<^verbatim>\<open>address\<close> is the byte address, \<^verbatim>\<open>type\<close> is read (=0) or
  write (=1). The function is given block by block. First the two access counters.
\<close>

definition count_access :: "word32 \<Rightarrow> cache_dir \<Rightarrow> cache_dir" where
  "count_access acc_type c =
     (if acc_type = 0 then c\<lparr>cache_reads := cache_reads c + 1\<rparr>
      else c\<lparr>cache_writes := cache_writes c + 1\<rparr>)"

text \<open>The choice of the bank to replace, the three lines after \<^verbatim>\<open>misses++\<close>.\<close>

definition replacement_bank :: "nat \<Rightarrow> cache_dir \<Rightarrow> word32" where
  "replacement_bank addr_index c =
     (if valid c 0 addr_index = 0 then 0
      else if valid c 1 addr_index = 0 then 1
      else if lru c addr_index \<noteq> 0 then 0 else 1)"

text \<open>The miss branch; it yields the bank chosen and the directory.\<close>

definition replace_line :: "nat \<Rightarrow> word32 \<Rightarrow> cache_dir \<Rightarrow> word32 \<times> cache_dir" where
  "replace_line addr_index addr_tag c =
     (let cm = c\<lparr>misses := misses c + 1\<rparr>;
          bank = replacement_bank addr_index cm;
          cw = (if valid cm (unat bank) addr_index \<noteq> 0 \<and> dirty cm (unat bank) addr_index \<noteq> 0
                then cm\<lparr>write_backs := write_backs cm + 1\<rparr> else cm)
      in (bank, cw\<lparr>valid := upd2 (valid cw) (unat bank) addr_index 1,
                    dirty := upd2 (dirty cw) (unat bank) addr_index 0,
                    tag := upd2 (tag cw) (unat bank) addr_index addr_tag\<rparr>))"

text \<open>The hit checks of bank 0 and bank 1, and the miss branch after them.\<close>

definition probe :: "nat \<Rightarrow> word32 \<Rightarrow> cache_dir \<Rightarrow> word32 \<times> cache_dir" where
  "probe addr_index addr_tag c =
     (if valid c 0 addr_index \<noteq> 0 \<and> addr_tag = tag c 0 addr_index
      then (0, c\<lparr>hits := hits c + 1\<rparr>)
      else if valid c 1 addr_index \<noteq> 0 \<and> addr_tag = tag c 1 addr_index
      then (1, c\<lparr>hits := hits c + 1\<rparr>)
      else replace_line addr_index addr_tag c)"

definition cache_access :: "word32 \<Rightarrow> word32 \<Rightarrow> cache_dir \<Rightarrow> cache_dir" where
  "cache_access address acc_type c =
     (let c1 = count_access acc_type c;
          addr_index = unat (drop_bit 3 address AND 0x3f);
          addr_tag = drop_bit 9 address;
          (bank, c2) = probe addr_index addr_tag c1;
          c3 = c2\<lparr>lru := (lru c2)(addr_index := bank)\<rparr>
      in if acc_type = 1 then c3\<lparr>dirty := upd2 (dirty c3) (unat bank) addr_index 1\<rparr> else c3)"

section \<open>The simulator with cache\<close>

text \<open>
  The second \<^verbatim>\<open>sim.c\<close> repeats the first word for word and adds a call of
  \<^verbatim>\<open>cache_access\<close> after each \<^verbatim>\<open>read_mem\<close> and \<^verbatim>\<open>write_mem\<close>, \<^verbatim>\<open>cache_init\<close> after
  \<^verbatim>\<open>get_mem\<close> and \<^verbatim>\<open>cache_stats\<close> at the end. Its state is the processor state and the
  cache directory; its functions carry the suffix \<open>_c\<close>.
\<close>

definition imm_ld_c :: "proc \<times> cache_dir \<Rightarrow> fault + proc \<times> cache_dir" where
  "imm_ld_c = (\<lambda>(p, c).
     let address = rg p (s1 p) + imm16 p in
     case read_mem address (d p) p of
       Inl e \<Rightarrow> Inl e
     | Inr p' \<Rightarrow> Inr (p', cache_access address 0 c))"

definition imm_st_c :: "proc \<times> cache_dir \<Rightarrow> fault + proc \<times> cache_dir" where
  "imm_st_c = (\<lambda>(p, c).
     let address = rg p (s1 p) + imm16 p in
     case write_mem address (d p) p of
       Inl e \<Rightarrow> Inl e
     | Inr p' \<Rightarrow> Inr (p', cache_access address 1 c))"

definition ld_c :: "proc \<times> cache_dir \<Rightarrow> fault + proc \<times> cache_dir" where
  "ld_c = (\<lambda>(p, c).
     if scaled p \<noteq> 0
     then let address = rg p (s1 p) + push_bit 2 (rg p (s2 p)) in
          case read_mem address (d p) p of
            Inl e \<Rightarrow> Inl e
          | Inr p' \<Rightarrow> Inr (p', cache_access address 0 c)
     else let address = rg p (s1 p) + rg p (s2 p) in
          case read_mem address (d p) p of
            Inl e \<Rightarrow> Inl e
          | Inr p' \<Rightarrow> Inr (p', cache_access address 0 c))"

definition st_c :: "proc \<times> cache_dir \<Rightarrow> fault + proc \<times> cache_dir" where
  "st_c = (\<lambda>(p, c).
     if scaled p \<noteq> 0
     then let address = rg p (s1 p) + push_bit 2 (rg p (s2 p)) in
          case write_mem address (d p) p of
            Inl e \<Rightarrow> Inl e
          | Inr p' \<Rightarrow> Inr (p', cache_access address 1 c)
     else let address = rg p (s1 p) + rg p (s2 p) in
          case write_mem address (d p) p of
            Inl e \<Rightarrow> Inl e
          | Inr p' \<Rightarrow> Inr (p', cache_access address 1 c))"

text \<open>A handler that does not mention the cache leaves the directory as it is.\<close>

definition keep_cache :: "cache_dir \<Rightarrow> fault + proc \<Rightarrow> fault + proc \<times> cache_dir" where
  "keep_cache c r = (case r of Inl e \<Rightarrow> Inl e | Inr p \<Rightarrow> Inr (p, c))"

definition dispatch_c :: "proc \<times> cache_dir \<Rightarrow> fault + proc \<times> cache_dir" where
  "dispatch_c = (\<lambda>(p, c).
     if op1 p = 0x00 then Inr (halt p, c)
     else if op1 p = 0x05 then imm_ld_c (p, c)
     else if op1 p = 0x09 then imm_st_c (p, c)
     else if op1 p = 0x0d then Inr (imm_lda p, c)
     else if op1 p = 0x1c then Inr (imm_add p, c)
     else if op1 p = 0x1d then Inr (imm_sub p, c)
     else if op1 p = 0x30 then keep_cache c (br p)
     else if op1 p = 0x3a then keep_cache c (bcnd p)
     else if op1 p = 0x3c then
       (if op2 p = 0x24 then Inr (ext p, c)
        else if op2 p = 0x26 then Inr (extu p, c)
        else if op2 p = 0x28 then Inr (mak p, c)
        else if op2 p = 0x2a then Inr (rot p, c)
        else keep_cache c (unknown_op p))
     else if op1 p = 0x3d then
       (if op2 p = 0x05 then ld_c (p, c)
        else if op2 p = 0x09 then st_c (p, c)
        else if op2 p = 0x0d then Inr (lda p, c)
        else if op2 p = 0x1c then Inr (add p, c)
        else if op2 p = 0x1d then Inr (sub p, c)
        else keep_cache c (unknown_op p))
     else keep_cache c (unknown_op p))"

definition cycle_c ::
  "(proc \<times> cache_dir) beyond \<Rightarrow> proc \<times> cache_dir \<Rightarrow> fault + proc \<times> cache_dir" where
  "cycle_c beyond = (\<lambda>(p, c).
     case fetch (beyond (p, c)) p of
       Inl e \<Rightarrow> Inl e
     | Inr p1 \<Rightarrow>
         (case dispatch_c (decode p1, c) of
            Inl e \<Rightarrow> Inl e
          | Inr (p2, c2) \<Rightarrow> Inr (p2\<lparr>reg := (reg p2)(0 := 0)\<rparr>, c2)))"

fun run_c ::
  "(proc \<times> cache_dir) beyond \<Rightarrow> nat \<Rightarrow> proc \<times> cache_dir \<Rightarrow> (fault + proc \<times> cache_dir) option" where
  "run_c beyond 0 pc = (if halt_flag (fst pc) \<noteq> 0 then Some (Inr pc) else None)"
| "run_c beyond (Suc n) pc =
     (if halt_flag (fst pc) \<noteq> 0 then Some (Inr pc)
      else case cycle_c beyond pc of
             Inl e \<Rightarrow> Some (Inl e)
           | Inr pc' \<Rightarrow> run_c beyond n pc')"

definition main_c ::
  "(proc \<times> cache_dir) beyond \<Rightarrow> word32 list \<Rightarrow> nat \<Rightarrow> (fault + proc \<times> cache_dir) option" where
  "main_c beyond input fuel =
     (case get_mem input init_proc of
        Inl e \<Rightarrow> Some (Inl e)
      | Inr p \<Rightarrow> run_c beyond fuel (p, cache_init zero_cache))"


section \<open>Notions used to state the properties\<close>

text \<open>
  The displacement of \<^verbatim>\<open>br\<close>: the low 26 bits of the instruction, read as a signed
  number of words.
\<close>

definition disp26 :: "word32 \<Rightarrow> int" where
  "disp26 w = sint (ucast w :: 26 word)"

text \<open>
  The displacement of \<^verbatim>\<open>bcnd\<close>: the low 16 bits of the instruction, read as a signed
  number of words.
\<close>

definition disp16 :: "word32 \<Rightarrow> int" where
  "disp16 w = sint (ucast w :: 16 word)"

text \<open>
  The condition code of \<^verbatim>\<open>bcnd\<close> in words: bit 1 is the sign bit of the register, bit 0
  is 1 exactly when bits 30 to 0 of the register are all zero.
\<close>

definition cond_code :: "word32 \<Rightarrow> nat" where
  "cond_code r = (if bit r 31 then 2 else 0) + (if take_bit 31 r = 0 then 1 else 0)"

text \<open>
  The condition code as the specification words it: bit 0 is 1 exactly when the register
  value is zero.
\<close>

definition spec_cond_code :: "word32 \<Rightarrow> nat" where
  "spec_cond_code r = (if bit r 31 then 2 else 0) + (if r = 0 then 1 else 0)"

text \<open>
  The line and the tag of an address, as \<^verbatim>\<open>cache_access\<close> computes them; a way hits
  when it is valid and holds the tag.
\<close>

definition line_of :: "word32 \<Rightarrow> nat" where
  "line_of address = unat (drop_bit 3 address AND 0x3f)"

definition tag_of :: "word32 \<Rightarrow> word32" where
  "tag_of address = drop_bit 9 address"

definition way_hit :: "cache_dir \<Rightarrow> nat \<Rightarrow> word32 \<Rightarrow> bool" where
  "way_hit c w address =
     (valid c w (line_of address) \<noteq> 0 \<and> tag_of address = tag c w (line_of address))"

text \<open>
  The victim as the specification words it: way 0 if it is invalid, else way 1 if it is
  invalid, else the way other than the one recorded in the replacement state.
\<close>

definition victim_way :: "cache_dir \<Rightarrow> nat \<Rightarrow> nat" where
  "victim_way c i =
     (if valid c 0 i = 0 then 0 else if valid c 1 i = 0 then 1 else 1 - unat (lru c i))"






text \<open>
  The effective address of the immediate forms of load and store, and of the register
  forms (scaled or not), as the handlers compute it.
\<close>

definition ea_imm :: "proc \<Rightarrow> word32" where
  "ea_imm p = rg p (s1 p) + imm16 p"

definition ea_reg :: "proc \<Rightarrow> word32" where
  "ea_reg p =
     (if scaled p \<noteq> 0 then rg p (s1 p) + push_bit 2 (rg p (s2 p))
      else rg p (s1 p) + rg p (s2 p))"

text \<open>A byte address inside the memory: the assertion of \<^verbatim>\<open>read_mem\<close> and \<^verbatim>\<open>write_mem\<close> holds.\<close>

definition in_memory :: "word32 \<Rightarrow> bool" where
  "in_memory a = (0 \<le> sint a \<and> sint a < 4 * MEM_SIZE_IN_WORDS)"

text \<open>
  The state after a load to \<^verbatim>\<open>reg[d]\<close> of the word that holds byte address \<open>a\<close>, and
  after a store of \<^verbatim>\<open>reg[d]\<close> to that word.
\<close>

definition loaded :: "word32 \<Rightarrow> proc \<Rightarrow> proc" where
  "loaded a p = p\<lparr>reg := (reg p)(unat (d p) := mem p (nat (sint a) div 4)),
                   memory_reads := memory_reads p + 1\<rparr>"

definition stored :: "word32 \<Rightarrow> proc \<Rightarrow> proc" where
  "stored a p = p\<lparr>mem := (mem p)(nat (sint a) div 4 := reg p (unat (d p))),
                   memory_writes := memory_writes p + 1\<rparr>"

subsection \<open>Example states\<close>

text \<open>\<^verbatim>\<open>add r0,r0,5\<close> at address 0.\<close>

definition r0_example :: proc where
  "r0_example = init_proc\<lparr>mem := (\<lambda>_. 0)(0 := 0x70000005)\<rparr>"

text \<open>\<^verbatim>\<open>br\<close> with displacement \<open>-2\<close>, being executed at address 16.\<close>

definition br_example :: proc where
  "br_example = init_proc\<lparr>ir := 0xC3FFFFFE, xip := 16, fip := 20\<rparr>"

text \<open>\<^verbatim>\<open>rot r3,r2,0\<close> decoded, with a negative value in \<^verbatim>\<open>r2\<close>.\<close>

definition rot_example :: proc where
  "rot_example = init_proc\<lparr>reg := (\<lambda>_. 0)(2 := 0x80000001), d := 3, s1 := 2, s2 := 0\<rparr>"

text \<open>
  A load to \<^verbatim>\<open>r1\<close> decoded, in both forms (\<^verbatim>\<open>ld r1,r0,0x13\<close> and \<^verbatim>\<open>ld r1,r0,r3\<close> with
  \<^verbatim>\<open>0x13\<close> in \<^verbatim>\<open>r3\<close>), with the word 7 at index 4; and the same for a store from
  \<^verbatim>\<open>r2\<close>, which holds 9. The effective address \<^verbatim>\<open>0x13\<close> is not a multiple of 4.
\<close>

definition unaligned_example :: proc where
  "unaligned_example = init_proc\<lparr>mem := (\<lambda>_. 0)(4 := 7), reg := (\<lambda>_. 0)(2 := 9, 3 := 0x13),
     d := 1, s1 := 0, s2 := 3, imm16 := 0x13, scaled := 0\<rparr>"

definition unaligned_store_example :: proc where
  "unaligned_store_example = unaligned_example\<lparr>d := 2\<rparr>"

text \<open>
  The states after the first pass (\<^verbatim>\<open>ld r1,r0,0x10\<close> at address 0) and after the second
  pass (\<^verbatim>\<open>halt\<close> at address 4) of a run that starts from the memory \<open>m\<close>.
\<close>

definition after_ld :: "(nat \<Rightarrow> word32) \<Rightarrow> proc" where
  "after_ld m = init_proc\<lparr>mem := m, reg := (\<lambda>_. 0)(1 := m 4, 0 := 0), xip := 0, fip := 4,
     ir := 0x14200010, op1 := 5, op2 := 0, d := 1, s1 := 0, s2 := 0x10,
     imm16 := 0x10, scaled := 0, inst_fetches := 1, memory_reads := 1\<rparr>"

definition after_halt :: "(nat \<Rightarrow> word32) \<Rightarrow> proc" where
  "after_halt m = (after_ld m)\<lparr>xip := 4, fip := 8, ir := 0, op1 := 0, op2 := 0, d := 0,
     s1 := 0, s2 := 0, imm16 := 0, scaled := 0, inst_fetches := 2, halt_flag := 1\<rparr>"


text \<open>
  Line 5 with both ways valid, way 0 dirty, tags 7 and 8, and way 1 serviced last. The
  address \<^verbatim>\<open>0x1228\<close> has line 5 and tag 9.
\<close>

definition miss_example :: cache_dir where
  "miss_example = zero_cache
     \<lparr>valid := upd2 (upd2 (\<lambda>_ _. 0) 0 5 1) 1 5 1,
      dirty := upd2 (\<lambda>_ _. 0) 0 5 1,
      tag := upd2 (upd2 (\<lambda>_ _. 0) 0 5 7) 1 5 8,
      lru := (\<lambda>_. 0)(5 := 1)\<rparr>"

text \<open>
  \<^verbatim>\<open>bcnd mask=8,r1,2\<close> decoded, being executed at address 0, with the most negative
  number in \<^verbatim>\<open>r1\<close>.
\<close>

definition bcnd_example :: proc where
  "bcnd_example = init_proc\<lparr>reg := (\<lambda>_. 0)(1 := 0x80000000), ir := 0xE9010002,
     d := 8, s1 := 1, xip := 0, fip := 4\<rparr>"

section \<open>Facts about words\<close>

lemma and_mask26: "(x :: word32) AND 0x03ffffff = take_bit 26 x"
  by (simp add: take_bit_eq_mask mask_eq_exp_minus_1)

lemma and_mask16: "(x :: word32) AND 0xffff = take_bit 16 x"
  by (simp add: take_bit_eq_mask mask_eq_exp_minus_1)

text \<open>Shifting left and then arithmetically right by the same amount extends the sign.\<close>

lemma sext26: "signed_drop_bit 6 (push_bit 6 (take_bit 26 x)) = (signed_take_bit 25 x :: word32)"
proof (rule bit_word_eqI)
  fix n assume "n < LENGTH(32)"
  then show "bit (signed_drop_bit 6 (push_bit 6 (take_bit 26 x))) n = bit (signed_take_bit 25 x) n"
    by (cases "n < 25"; cases "n = 25")
       (simp_all add: bit_simps bit_signed_take_bit_iff min_def)
qed

lemma sext16: "signed_drop_bit 16 (push_bit 16 (take_bit 16 x)) = (signed_take_bit 15 x :: word32)"
proof (rule bit_word_eqI)
  fix n assume "n < LENGTH(32)"
  then show "bit (signed_drop_bit 16 (push_bit 16 (take_bit 16 x))) n = bit (signed_take_bit 15 x) n"
    by (cases "n < 15"; cases "n = 15")
       (simp_all add: bit_simps bit_signed_take_bit_iff min_def)
qed

lemma field26: "(word_of_int (sint (ucast x :: 26 word)) :: word32) = signed_take_bit 25 (x::word32)"
proof (rule bit_word_eqI)
  fix n assume "n < LENGTH(32)"
  then show "bit (word_of_int (sint (ucast x :: 26 word)) :: word32) n = bit (signed_take_bit 25 x) n"
    by (cases "n < 25"; cases "n = 25")
       (simp_all add: bit_simps bit_signed_take_bit_iff min_def)
qed

lemma field16: "(word_of_int (sint (ucast x :: 16 word)) :: word32) = signed_take_bit 15 (x::word32)"
proof (rule bit_word_eqI)
  fix n assume "n < LENGTH(32)"
  then show "bit (word_of_int (sint (ucast x :: 16 word)) :: word32) n = bit (signed_take_bit 15 x) n"
    by (cases "n < 15"; cases "n = 15")
       (simp_all add: bit_simps bit_signed_take_bit_iff min_def)
qed

lemma br_disp:
  "push_bit 2 (signed_drop_bit 6 (push_bit 6 (x AND 0x03ffffff))) = 4 * word_of_int (disp26 x)"
proof -
  have "signed_drop_bit 6 (push_bit 6 (x AND 0x03ffffff)) = signed_take_bit 25 x"
    by (simp only: and_mask26 sext26)
  moreover have "word_of_int (disp26 x) = (signed_take_bit 25 x :: word32)"
    unfolding disp26_def by (rule field26)
  ultimately show ?thesis
    by (simp only: push_bit_eq_mult) simp
qed

text \<open>The word index \<^verbatim>\<open>eff_addr >> 2\<close>.\<close>

lemma sint_sdrop2: "sint (signed_drop_bit 2 (a::word32)) = sint a div 4"
  by (simp add: sint_signed_drop_bit_eq drop_bit_eq_div)

lemma unat_of_sint: "0 \<le> sint (w::word32) \<Longrightarrow> unat w = nat (sint w)"
proof -
  assume a: "0 \<le> sint w"
  have "sint w < 2 ^ 31" using sint_lt [of w] by simp
  then have "take_bit 32 (sint w) = sint w"
    using a by (simp add: take_bit_int_eq_self)
  then have "uint w = sint w"
    using uint_sint [of w] by simp
  then show ?thesis by (simp add: unat_eq_nat_uint)
qed

lemma unat_sdrop2: "0 \<le> sint (a::word32) \<Longrightarrow> unat (signed_drop_bit 2 a) = nat (sint a) div 4"
proof -
  assume a: "0 \<le> sint a"
  then have "0 \<le> sint (signed_drop_bit 2 a)" by (simp add: sint_sdrop2)
  then have "unat (signed_drop_bit 2 a) = nat (sint a div 4)"
    using unat_of_sint [of "signed_drop_bit 2 a"] by (simp add: sint_sdrop2)
  then show ?thesis using a by (simp add: nat_div_distrib)
qed

lemma sdrop2_aligned: "signed_drop_bit 2 (a AND - 4) = signed_drop_bit 2 (a::word32)"
proof (rule bit_word_eqI)
  fix n assume "n < LENGTH(32)"
  have m: "(- 4 :: word32) = NOT (mask 2)" by (simp add: mask_eq_exp_minus_1)
  show "bit (signed_drop_bit 2 (a AND - 4)) n = bit (signed_drop_bit 2 a) n"
    unfolding m using \<open>n < LENGTH(32)\<close>
    by (auto simp add: bit_simps)
qed

lemma in_range_word:
  "0 \<le> sint (a::word32) \<Longrightarrow> sint a < 4 * MEM_SIZE_IN_WORDS \<Longrightarrow>
   0 \<le> sint (signed_drop_bit 2 a) \<and> sint (signed_drop_bit 2 a) < MEM_SIZE_IN_WORDS"
  unfolding sint_sdrop2 by linarith

lemmas example_simps = cycle_def cycle_c_def fetch_def init_proc_def MEM_SIZE_IN_WORDS_def
  decode_def dispatch_def dispatch_c_def imm_add_def set_rg_def rg_def Let_def

section \<open>Array indices\<close>

text \<open>
  The register indices that \<^verbatim>\<open>decode\<close> extracts are below 32, and the line index of
  \<^verbatim>\<open>cache_access\<close> is below \<^verbatim>\<open>LINES_PER_BANK\<close> (lemma \<open>line_of_less\<close> below): the
  arrays \<^verbatim>\<open>reg\<close>, \<^verbatim>\<open>valid\<close>, \<^verbatim>\<open>dirty\<close>, \<^verbatim>\<open>tag\<close> and \<^verbatim>\<open>lru\<close> are never indexed
  outside their bounds.
\<close>

lemma and_1f_less: "unat ((x::word32) AND 0x1f) < 32"
proof -
  have "x AND 0x1f \<le> (0x1f :: word32)" by (rule word_and_le1)
  then have "unat (x AND 0x1f) \<le> unat (0x1f :: word32)" by (simp add: word_le_nat_alt)
  then show ?thesis by simp
qed

lemma decode_reg_index:
  "unat (d (decode p)) < 32" "unat (s1 (decode p)) < 32" "unat (s2 (decode p)) < 32"
  by (simp_all add: decode_def and_1f_less)

section \<open>Unconditional branch\<close>

text \<open>
  C3. An unconditional branch that is executed (its 26-bit field is not zero, so the
  assertion of \<^verbatim>\<open>br\<close> holds) at execute pointer \<open>xip p\<close>, whose field sign-extends to
  \<open>k = disp26 (ir p)\<close> words, sets the fetch pointer to \<open>xip p + 4 * k\<close> (in 32-bit
  arithmetic), for positive and for negative \<open>k\<close>, adds one to the branch counter and one
  to the taken-branch counter, and changes nothing else.
\<close>

theorem br_sets_fip:
  assumes "ir p AND 0x03ffffff \<noteq> 0"
  shows "br p = Inr (p\<lparr>fip := xip p + 4 * word_of_int (disp26 (ir p)),
                       branches := branches p + 1,
                       taken_branches := taken_branches p + 1\<rparr>)"
  using assms by (simp only: br_def Let_def br_disp if_False)

theorem br_sets_fip_witness:
  "ir br_example AND 0x03ffffff \<noteq> 0 \<and> disp26 (ir br_example) = - 2 \<and>
   map_sum id (\<lambda>p. (fip p, branches p, taken_branches p)) (br br_example) = Inr (8, 1, 1)"
proof -
  have h: "ir br_example AND 0x03ffffff \<noteq> 0"
    by (simp add: br_example_def init_proc_def)
  have k: "disp26 (ir br_example) = - 2"
    by (simp add: br_example_def init_proc_def disp26_def)
  show ?thesis
    using h k br_sets_fip [OF h] by (simp add: k) (simp add: br_example_def init_proc_def)
qed

section \<open>Register 0\<close>

text \<open>
  C4. After every instruction that completes, that is after every pass through the loop
  body that ends without a fault, register 0 reads as 0, in both variants of the
  simulator, whatever the instruction wrote to it.
\<close>

theorem r0_zero:
  "(cycle beyond p = Inr p' \<longrightarrow> reg p' 0 = 0) \<and>
   (cycle_c beyond_c (p, c) = Inr (q, c') \<longrightarrow> reg q 0 = 0)"
  by (auto simp: cycle_def cycle_c_def split: sum.splits prod.splits)

text \<open>
  The handler of \<^verbatim>\<open>add r0,r0,5\<close> leaves 5 in register 0; at the end of the pass it is 0.
\<close>

theorem r0_zero_witness:
  "reg (imm_add (decode (projr (fetch (\<lambda>_. None) r0_example)))) 0 = 5 \<and>
   \<not> isl (cycle (\<lambda>_ _. None) r0_example) \<and>
   reg (projr (cycle (\<lambda>_ _. None) r0_example)) 0 = 0 \<and>
   \<not> isl (cycle_c (\<lambda>_ _. None) (r0_example, zero_cache)) \<and>
   reg (fst (projr (cycle_c (\<lambda>_ _. None) (r0_example, zero_cache)))) 0 = 0"
proof -
  obtain p' where a: "cycle (\<lambda>_ _. None) r0_example = Inr p'"
    by (simp add: r0_example_def example_simps)
  obtain q c' where b: "cycle_c (\<lambda>_ _. None) (r0_example, zero_cache) = Inr (q, c')"
    by (simp add: r0_example_def example_simps)
  have "reg p' 0 = 0" and "reg q 0 = 0"
    using r0_zero [of "\<lambda>_ _. None" r0_example p' "\<lambda>_ _. None" zero_cache q c'] a b by blast+
  moreover have "reg (imm_add (decode (projr (fetch (\<lambda>_. None) r0_example)))) 0 = 5"
    by (simp add: r0_example_def example_simps)
  ultimately show ?thesis using a b by simp
qed

section \<open>Rotate\<close>

text \<open>
  C5. \<^verbatim>\<open>rot\<close> with shift amount 0 writes the value of the first source register
  unchanged into the destination register and changes nothing else.
\<close>

theorem rot_by_zero:
  "s2 p = 0 \<Longrightarrow> rot p = p\<lparr>reg := (reg p)(unat (d p) := reg p (unat (s1 p)))\<rparr>"
  by (simp add: rot_def rot_value_def set_rg_def rg_def)

theorem rot_by_zero_witness:
  "s2 rot_example = 0 \<and> reg (rot rot_example) 3 = 0x80000001"
proof -
  have h: "s2 rot_example = 0" by (simp add: rot_example_def init_proc_def)
  show ?thesis
    using h rot_by_zero [OF h] by (simp add: rot_example_def init_proc_def)
qed

text \<open>
  In the model the left shift by 32 gives 0. A processor that takes the shift count
  modulo 32 shifts by 0 instead; the value written is the same.
\<close>

lemma rot_by_zero_count_masked:
  "push_bit (unat (32 - (0 :: word32)) mod 32) v OR signed_drop_bit (unat (0 :: word32) mod 32) v
     = (v :: word32)"
  by simp

text \<open>
  C7. Rotating by \<open>n\<close> and then by \<open>32 - n\<close> does not give the value back when the sign
  bit is set: the right shift of \<^verbatim>\<open>rot\<close> is arithmetic and fills the upper bits with
  ones. For \<^verbatim>\<open>0x80000000\<close> and \<open>n = 1\<close> the result is \<^verbatim>\<open>0xFFFFFFFF\<close>.
\<close>

theorem rot_round_trip_lost:
  "rot_value 0x80000000 1 = 0xC0000000 \<and>
   rot_value (rot_value 0x80000000 1) (32 - 1) = 0xFFFFFFFF \<and>
   rot_value (rot_value 0x80000000 1) (32 - 1) \<noteq> 0x80000000"
  by (simp add: rot_value_def)

section \<open>Cache miss\<close>

lemma count_access_fields [simp]:
  "valid (count_access ty c) = valid c" "dirty (count_access ty c) = dirty c"
  "tag (count_access ty c) = tag c" "lru (count_access ty c) = lru c"
  "hits (count_access ty c) = hits c" "misses (count_access ty c) = misses c"
  "write_backs (count_access ty c) = write_backs c"
  by (simp_all add: count_access_def)

lemma replacement_bank_cases: "replacement_bank i c = 0 \<or> replacement_bank i c = 1"
  by (simp add: replacement_bank_def)

lemma replacement_bank_count [simp]:
  "replacement_bank i (count_access ty c) = replacement_bank i c"
  by (simp add: replacement_bank_def)

lemma word_le_1_cases: "(x::word32) \<le> 1 \<Longrightarrow> x = 0 \<or> x = 1"
proof -
  assume "x \<le> 1"
  then have "unat x \<le> 1" by (simp add: word_le_nat_alt)
  then have "unat x = unat (0::word32) \<or> unat x = unat (1::word32)" by (simp add: le_Suc_eq)
  then show ?thesis by (simp only: word_unat_eq_iff [symmetric])
qed

lemma replacement_bank_victim:
  assumes "lru c i \<le> 1"
  shows "unat (replacement_bank i c) = victim_way c i"
proof -
  from assms have "lru c i = 0 \<or> lru c i = 1" by (rule word_le_1_cases)
  then show ?thesis
    by (auto simp: replacement_bank_def victim_way_def)
qed

lemma probe_miss:
  "\<not> (valid c 0 i \<noteq> 0 \<and> t = tag c 0 i) \<Longrightarrow> \<not> (valid c 1 i \<noteq> 0 \<and> t = tag c 1 i) \<Longrightarrow>
   probe i t c = replace_line i t c"
  by (auto simp: probe_def)

lemma replace_line_fields:
  "fst (replace_line i t c) = replacement_bank i c"
  "misses (snd (replace_line i t c)) = misses c + 1"
  "hits (snd (replace_line i t c)) = hits c"
  "lru (snd (replace_line i t c)) = lru c"
  "write_backs (snd (replace_line i t c)) =
     (if valid c (unat (replacement_bank i c)) i \<noteq> 0 \<and> dirty c (unat (replacement_bank i c)) i \<noteq> 0
      then write_backs c + 1 else write_backs c)"
  "valid (snd (replace_line i t c)) = upd2 (valid c) (unat (replacement_bank i c)) i 1"
  "dirty (snd (replace_line i t c)) = upd2 (dirty c) (unat (replacement_bank i c)) i 0"
  "tag (snd (replace_line i t c)) = upd2 (tag c) (unat (replacement_bank i c)) i t"
  "cache_reads (snd (replace_line i t c)) = cache_reads c"
  "cache_writes (snd (replace_line i t c)) = cache_writes c"
  by (simp_all add: replace_line_def Let_def replacement_bank_def)

lemma cache_access_fields:
  "cache_access a ty c =
     (let i = line_of a; pr = probe i (tag_of a) (count_access ty c) in
      (snd pr)\<lparr>lru := (lru (snd pr))(i := fst pr),
               dirty := (if ty = 1 then upd2 (dirty (snd pr)) (unat (fst pr)) i 1
                         else dirty (snd pr))\<rparr>)"
  by (simp add: cache_access_def Let_def line_of_def tag_of_def split_beta)

lemma line_of_less: "line_of a < LINES_PER_BANK"
proof -
  have "drop_bit 3 a AND 0x3f \<le> (0x3f :: word32)" by (rule word_and_le1)
  then have "unat (drop_bit 3 a AND 0x3f) \<le> unat (0x3f :: word32)" by (simp add: word_le_nat_alt)
  then show ?thesis by (simp add: line_of_def LINES_PER_BANK_def)
qed

text \<open>
  C1. When neither way of the indexed set is valid with the tag of the address (and the
  replacement state of the set records a way, 0 or 1, as it does in every directory
  reached from \<^verbatim>\<open>cache_init\<close>): the miss counter grows by one and the hit counter
  stays; the victim is way 0 if way 0 is invalid, else way 1 if way 1 is invalid, else
  the way other than the recorded one; the write-back counter grows by one exactly when
  the victim was valid and dirty; afterwards the victim is valid and holds the tag, its
  dirty bit is set exactly when the access is a write (type 1), and the replacement
  state records the victim.
\<close>

theorem cache_miss:
  assumes "\<not> way_hit c 0 a" and "\<not> way_hit c 1 a" and "lru c (line_of a) \<le> 1"
  shows "let i = line_of a; v = victim_way c i; c' = cache_access a ty c in
           misses c' = misses c + 1 \<and> hits c' = hits c \<and>
           write_backs c' = (if valid c v i \<noteq> 0 \<and> dirty c v i \<noteq> 0
                             then write_backs c + 1 else write_backs c) \<and>
           valid c' v i = 1 \<and> tag c' v i = tag_of a \<and>
           dirty c' v i = (if ty = 1 then 1 else 0) \<and>
           lru c' i = of_nat v"
proof -
  define i where "i = line_of a"
  define b where "b = replacement_bank i c"
  define r where "r = snd (replace_line i (tag_of a) (count_access ty c))"
  have m: "probe i (tag_of a) (count_access ty c) = (b, r)"
    using assms(1,2) probe_miss [of "count_access ty c" i "tag_of a"]
    by (simp add: way_hit_def i_def b_def r_def prod_eq_iff replace_line_fields)
  have v: "victim_way c i = unat b"
    using assms(3) by (simp add: replacement_bank_victim i_def b_def)
  have c': "cache_access a ty c =
      r\<lparr>lru := (lru r)(i := b),
        dirty := (if ty = 1 then upd2 (dirty r) (unat b) i 1 else dirty r)\<rparr>"
    unfolding cache_access_fields Let_def i_def [symmetric] m by simp
  have r: "misses r = misses c + 1" "hits r = hits c"
    "write_backs r = (if valid c (unat b) i \<noteq> 0 \<and> dirty c (unat b) i \<noteq> 0
                      then write_backs c + 1 else write_backs c)"
    "valid r = upd2 (valid c) (unat b) i 1"
    "dirty r = upd2 (dirty c) (unat b) i 0"
    "tag r = upd2 (tag c) (unat b) i (tag_of a)"
    by (simp_all add: r_def replace_line_fields b_def)
  show ?thesis
    unfolding Let_def i_def [symmetric] v c'
    by (simp add: r upd2_def)
qed

text \<open>
  The replacement state stays 0 or 1 on every line: the hypothesis of \<open>cache_miss\<close> is
  an invariant of the directory.
\<close>

lemma cache_access_lru:
  "lru (cache_access a ty c) i \<le> 1 \<or> lru (cache_access a ty c) i = lru c i"
proof -
  have "fst (probe (line_of a) (tag_of a) (count_access ty c)) \<le> 1"
    using replacement_bank_cases [of "line_of a" "count_access ty c"]
    by (auto simp: probe_def replace_line_fields)
  moreover have "lru (snd (probe (line_of a) (tag_of a) (count_access ty c))) = lru c"
    by (simp add: probe_def replace_line_fields)
  ultimately show ?thesis
    by (simp add: cache_access_fields Let_def)
qed

lemma cache_access_lru_le:
  assumes "\<forall>i. lru c i \<le> 1"
  shows "\<forall>i. lru (cache_access a ty c) i \<le> 1"
  using assms cache_access_lru [of a ty c] by metis

lemma fold_init_lru:
  "lru (fold cache_init_line xs c) i = (if i \<in> set xs then 0 else lru c i)"
  by (induction xs arbitrary: c) (auto simp: cache_init_line_def)

lemma cache_init_lru_le: "\<forall>i. lru (cache_init zero_cache) i \<le> 1"
  by (simp add: cache_init_def fold_init_lru zero_cache_def)

theorem cache_miss_witness:
  "\<not> way_hit miss_example 0 0x1228 \<and> \<not> way_hit miss_example 1 0x1228 \<and>
   lru miss_example (line_of 0x1228) \<le> 1 \<and>
   line_of 0x1228 = 5 \<and> victim_way miss_example 5 = 0 \<and>
   misses (cache_access 0x1228 1 miss_example) = 1 \<and>
   hits (cache_access 0x1228 1 miss_example) = 0 \<and>
   write_backs (cache_access 0x1228 1 miss_example) = 1 \<and>
   valid (cache_access 0x1228 1 miss_example) 0 5 = 1 \<and>
   tag (cache_access 0x1228 1 miss_example) 0 5 = 9 \<and>
   dirty (cache_access 0x1228 1 miss_example) 0 5 = 1 \<and>
   lru (cache_access 0x1228 1 miss_example) 5 = 0"
proof -
  have l: "line_of 0x1228 = 5" and t: "tag_of 0x1228 = 9"
    by (simp_all add: line_of_def tag_of_def)
  have h0: "\<not> way_hit miss_example 0 0x1228" and h1: "\<not> way_hit miss_example 1 0x1228"
    and h2: "lru miss_example (line_of 0x1228) \<le> 1"
    by (simp_all add: way_hit_def l t miss_example_def zero_cache_def upd2_def)
  have v: "victim_way miss_example 5 = 0"
    by (simp add: victim_way_def miss_example_def zero_cache_def upd2_def)
  have s: "valid miss_example 0 5 = 1" "dirty miss_example 0 5 = 1"
    "misses miss_example = 0" "hits miss_example = 0" "write_backs miss_example = 0"
    by (simp_all add: miss_example_def zero_cache_def upd2_def)
  show ?thesis
    using cache_miss [OF h0 h1 h2, of 1] h0 h1 h2
    by (simp add: l t v s Let_def)
qed

section \<open>Unaligned effective addresses\<close>

lemma read_mem_aligned: "read_mem a r p = read_mem (a AND - 4) r p"
  by (simp add: read_mem_def sdrop2_aligned)

lemma write_mem_aligned: "write_mem a r p = write_mem (a AND - 4) r p"
  by (simp add: write_mem_def sdrop2_aligned)

lemma read_mem_inside:
  assumes "in_memory a"
  shows "read_mem a r p = Inr (p\<lparr>reg := (reg p)(unat r := mem p (nat (sint a) div 4)),
                                  memory_reads := memory_reads p + 1\<rparr>)"
proof -
  from assms have "0 \<le> sint (signed_drop_bit 2 a) \<and> sint (signed_drop_bit 2 a) < MEM_SIZE_IN_WORDS"
    and "unat (signed_drop_bit 2 a) = nat (sint a) div 4"
    by (simp_all add: in_memory_def in_range_word unat_sdrop2)
  then show ?thesis by (simp add: read_mem_def Let_def)
qed

lemma write_mem_inside:
  assumes "in_memory a"
  shows "write_mem a r p = Inr (p\<lparr>mem := (mem p)(nat (sint a) div 4 := reg p (unat r)),
                                   memory_writes := memory_writes p + 1\<rparr>)"
proof -
  from assms have "0 \<le> sint (signed_drop_bit 2 a) \<and> sint (signed_drop_bit 2 a) < MEM_SIZE_IN_WORDS"
    and "unat (signed_drop_bit 2 a) = nat (sint a) div 4"
    by (simp_all add: in_memory_def in_range_word unat_sdrop2)
  then show ?thesis by (simp add: write_mem_def Let_def)
qed

lemma handlers_access:
  "imm_ld p = read_mem (ea_imm p) (d p) p" "imm_st p = write_mem (ea_imm p) (d p) p"
  "ld p = read_mem (ea_reg p) (d p) p" "st p = write_mem (ea_reg p) (d p) p"
  by (simp_all add: imm_ld_def imm_st_def ld_def st_def ea_imm_def ea_reg_def Let_def)

lemma handlers_c_access:
  "imm_ld_c (p, c) =
     (case read_mem (ea_imm p) (d p) p of
        Inl e \<Rightarrow> Inl e | Inr p' \<Rightarrow> Inr (p', cache_access (ea_imm p) 0 c))"
  "imm_st_c (p, c) =
     (case write_mem (ea_imm p) (d p) p of
        Inl e \<Rightarrow> Inl e | Inr p' \<Rightarrow> Inr (p', cache_access (ea_imm p) 1 c))"
  "ld_c (p, c) =
     (case read_mem (ea_reg p) (d p) p of
        Inl e \<Rightarrow> Inl e | Inr p' \<Rightarrow> Inr (p', cache_access (ea_reg p) 0 c))"
  "st_c (p, c) =
     (case write_mem (ea_reg p) (d p) p of
        Inl e \<Rightarrow> Inl e | Inr p' \<Rightarrow> Inr (p', cache_access (ea_reg p) 1 c))"
  by (simp_all add: imm_ld_c_def imm_st_c_def ld_c_def st_c_def ea_imm_def ea_reg_def Let_def
      split: sum.splits)

text \<open>
  C10. Every load and store instruction, in both variants, uses the memory word at index
  (effective address \<^verbatim>\<open>>> 2\<close>). For an effective address inside the memory, aligned or
  not, the handler completes: the load puts the word at index \<open>address div 4\<close> into
  \<^verbatim>\<open>reg[d]\<close> and counts a read, the store puts \<^verbatim>\<open>reg[d]\<close> into that word and counts a
  write (and the cached variant passes the address to \<^verbatim>\<open>cache_access\<close>). For every
  effective address each handler does exactly what the access at the aligned address
  below it does (the two low bits cleared), so no address faults for its alignment. The
  same holds of \<^verbatim>\<open>read_mem\<close> and \<^verbatim>\<open>write_mem\<close> for every address and register.
\<close>

theorem access_truncates:
  "(in_memory (ea_imm p) \<longrightarrow>
      imm_ld p = Inr (loaded (ea_imm p) p) \<and>
      imm_st p = Inr (stored (ea_imm p) p) \<and>
      imm_ld_c (p, c) = Inr (loaded (ea_imm p) p, cache_access (ea_imm p) 0 c) \<and>
      imm_st_c (p, c) = Inr (stored (ea_imm p) p, cache_access (ea_imm p) 1 c)) \<and>
   (in_memory (ea_reg p) \<longrightarrow>
      ld p = Inr (loaded (ea_reg p) p) \<and>
      st p = Inr (stored (ea_reg p) p) \<and>
      ld_c (p, c) = Inr (loaded (ea_reg p) p, cache_access (ea_reg p) 0 c) \<and>
      st_c (p, c) = Inr (stored (ea_reg p) p, cache_access (ea_reg p) 1 c)) \<and>
   imm_ld p = read_mem (ea_imm p AND - 4) (d p) p \<and>
   imm_st p = write_mem (ea_imm p AND - 4) (d p) p \<and>
   ld p = read_mem (ea_reg p AND - 4) (d p) p \<and>
   st p = write_mem (ea_reg p AND - 4) (d p) p \<and>
   map_sum id fst (imm_ld_c (p, c)) = read_mem (ea_imm p AND - 4) (d p) p \<and>
   map_sum id fst (imm_st_c (p, c)) = write_mem (ea_imm p AND - 4) (d p) p \<and>
   map_sum id fst (ld_c (p, c)) = read_mem (ea_reg p AND - 4) (d p) p \<and>
   map_sum id fst (st_c (p, c)) = write_mem (ea_reg p AND - 4) (d p) p \<and>
   read_mem a r p = read_mem (a AND - 4) r p \<and>
   write_mem a r p = write_mem (a AND - 4) r p \<and>
   (in_memory a \<longrightarrow>
      read_mem a r p = Inr (p\<lparr>reg := (reg p)(unat r := mem p (nat (sint a) div 4)),
                                memory_reads := memory_reads p + 1\<rparr>) \<and>
      write_mem a r p = Inr (p\<lparr>mem := (mem p)(nat (sint a) div 4 := reg p (unat r)),
                                 memory_writes := memory_writes p + 1\<rparr>))"
proof -
  have i: "in_memory (ea_imm p) \<longrightarrow>
      imm_ld p = Inr (loaded (ea_imm p) p) \<and>
      imm_st p = Inr (stored (ea_imm p) p) \<and>
      imm_ld_c (p, c) = Inr (loaded (ea_imm p) p, cache_access (ea_imm p) 0 c) \<and>
      imm_st_c (p, c) = Inr (stored (ea_imm p) p, cache_access (ea_imm p) 1 c)"
    by (simp add: handlers_access handlers_c_access read_mem_inside write_mem_inside
        loaded_def stored_def)
  have r: "in_memory (ea_reg p) \<longrightarrow>
      ld p = Inr (loaded (ea_reg p) p) \<and>
      st p = Inr (stored (ea_reg p) p) \<and>
      ld_c (p, c) = Inr (loaded (ea_reg p) p, cache_access (ea_reg p) 0 c) \<and>
      st_c (p, c) = Inr (stored (ea_reg p) p, cache_access (ea_reg p) 1 c)"
    by (simp add: handlers_access handlers_c_access read_mem_inside write_mem_inside
        loaded_def stored_def)
  have h: "imm_ld p = read_mem (ea_imm p AND - 4) (d p) p"
    "imm_st p = write_mem (ea_imm p AND - 4) (d p) p"
    "ld p = read_mem (ea_reg p AND - 4) (d p) p"
    "st p = write_mem (ea_reg p AND - 4) (d p) p"
    by (simp_all only: handlers_access read_mem_aligned [symmetric] write_mem_aligned [symmetric])
  have hc: "map_sum id fst (imm_ld_c (p, c)) = read_mem (ea_imm p AND - 4) (d p) p"
    "map_sum id fst (imm_st_c (p, c)) = write_mem (ea_imm p AND - 4) (d p) p"
    "map_sum id fst (ld_c (p, c)) = read_mem (ea_reg p AND - 4) (d p) p"
    "map_sum id fst (st_c (p, c)) = write_mem (ea_reg p AND - 4) (d p) p"
    unfolding read_mem_aligned [symmetric] write_mem_aligned [symmetric]
    by (simp_all add: handlers_c_access split: sum.splits)
  have m: "in_memory a \<longrightarrow>
      read_mem a r p = Inr (p\<lparr>reg := (reg p)(unat r := mem p (nat (sint a) div 4)),
                                memory_reads := memory_reads p + 1\<rparr>) \<and>
      write_mem a r p = Inr (p\<lparr>mem := (mem p)(nat (sint a) div 4 := reg p (unat r)),
                                 memory_writes := memory_writes p + 1\<rparr>)"
    by (simp add: read_mem_inside write_mem_inside)
  show ?thesis
    using i r h hc m read_mem_aligned [of a r p] write_mem_aligned [of a r p] by blast
qed

theorem access_truncates_witness:
  "ea_imm unaligned_example = 0x13 \<and> in_memory (ea_imm unaligned_example) \<and>
   ea_reg unaligned_example = 0x13 \<and> in_memory (ea_reg unaligned_example) \<and>
   ea_imm unaligned_store_example = 0x13 \<and> in_memory (ea_imm unaligned_store_example) \<and>
   ea_reg unaligned_store_example = 0x13 \<and> in_memory (ea_reg unaligned_store_example) \<and>
   map_sum id (\<lambda>p. (reg p 1, memory_reads p)) (imm_ld unaligned_example) = Inr (7, 1) \<and>
   map_sum id (\<lambda>p. (reg p 1, memory_reads p)) (ld unaligned_example) = Inr (7, 1) \<and>
   map_sum id (\<lambda>p. (mem p 4, memory_writes p)) (imm_st unaligned_store_example) = Inr (9, 1) \<and>
   map_sum id (\<lambda>p. (mem p 4, memory_writes p)) (st unaligned_store_example) = Inr (9, 1) \<and>
   map_sum id (\<lambda>(p, c). (reg p 1, cache_reads c))
     (imm_ld_c (unaligned_example, zero_cache)) = Inr (7, 1) \<and>
   map_sum id (\<lambda>(p, c). (mem p 4, cache_writes c))
     (st_c (unaligned_store_example, zero_cache)) = Inr (9, 1)"
proof -
  have e: "ea_imm unaligned_example = 0x13" "ea_reg unaligned_example = 0x13"
    "ea_imm unaligned_store_example = 0x13" "ea_reg unaligned_store_example = 0x13"
    by (simp_all add: ea_imm_def ea_reg_def rg_def unaligned_store_example_def
        unaligned_example_def init_proc_def)
  have n: "in_memory 0x13"
    by (simp add: in_memory_def MEM_SIZE_IN_WORDS_def)
  have f: "reg (loaded 0x13 unaligned_example) 1 = 7"
    "memory_reads (loaded 0x13 unaligned_example) = 1"
    "mem (stored 0x13 unaligned_store_example) 4 = 9"
    "memory_writes (stored 0x13 unaligned_store_example) = 1"
    by (simp_all add: loaded_def stored_def unaligned_store_example_def unaligned_example_def
        init_proc_def)
  have c: "cache_reads (cache_access 0x13 0 zero_cache) = 1"
    "cache_writes (cache_access 0x13 1 zero_cache) = 1"
    by (simp_all add: cache_access_fields Let_def probe_def replace_line_fields
        count_access_def zero_cache_def)
  have l: "imm_ld unaligned_example = Inr (loaded 0x13 unaligned_example)"
    "ld unaligned_example = Inr (loaded 0x13 unaligned_example)"
    "imm_ld_c (unaligned_example, zero_cache) =
       Inr (loaded 0x13 unaligned_example, cache_access 0x13 0 zero_cache)"
    using access_truncates [of unaligned_example zero_cache 0 0] n by (simp_all add: e)
  have t: "imm_st unaligned_store_example = Inr (stored 0x13 unaligned_store_example)"
    "st unaligned_store_example = Inr (stored 0x13 unaligned_store_example)"
    "st_c (unaligned_store_example, zero_cache) =
       Inr (stored 0x13 unaligned_store_example, cache_access 0x13 1 zero_cache)"
    using access_truncates [of unaligned_store_example zero_cache 0 0] n by (simp_all add: e)
  show ?thesis
    using f c by (simp add: e n l t)
qed

section \<open>Conditional branch\<close>

lemma drop_bit_31: "drop_bit 31 (r::word32) = (if bit r 31 then 1 else 0)"
proof (rule bit_word_eqI)
  fix n assume "n < LENGTH(32)"
  show "bit (drop_bit 31 r) n = bit (if bit r 31 then 1 else 0 :: word32) n"
  proof (cases "n = 0")
    case True
    then show ?thesis by (simp add: bit_simps)
  next
    case False
    then have "\<not> bit r (31 + n)"
      using bit_imp_le_length [of r "31 + n"] by auto
    with False show ?thesis by (simp add: bit_simps)
  qed
qed

lemma push_bit_zero_iff:
  assumes "k \<le> 32"
  shows "push_bit k (r::word32) = 0 \<longleftrightarrow> take_bit (32 - k) r = 0"
proof
  assume a: "push_bit k r = 0"
  show "take_bit (32 - k) r = 0"
  proof (rule bit_word_eqI)
    fix n assume "n < LENGTH(32)"
    have "\<not> bit (push_bit k r) (n + k)" using a by simp
    then show "bit (take_bit (32 - k) r) n = bit (0::word32) n"
      by (auto simp: bit_simps)
  qed
next
  assume a: "take_bit (32 - k) r = 0"
  show "push_bit k r = 0"
  proof (rule bit_word_eqI)
    fix n assume n: "n < LENGTH(32)"
    have "\<not> bit (take_bit (32 - k) r) (n - k)" using a by simp
    then show "bit (push_bit k r) n = bit (0::word32) n"
      using n assms by (auto simp: bit_simps)
  qed
qed

lemma times_2_zero: "(r::word32) * 2 = 0 \<longleftrightarrow> take_bit 31 r = 0"
  using push_bit_zero_iff [of 1 r] by simp

lemma bcnd_flag_code: "unat (bcnd_flag r) = cond_code r"
  by (simp add: bcnd_flag_def cond_code_def Let_def drop_bit_31 times_2_zero)

lemma mask_test: "(1 AND drop_bit n (x::word32) = 1) \<longleftrightarrow> bit x n"
  by (simp add: bit_iff_odd_drop_bit one_and_eq odd_iff_mod_2_eq_one)

lemma bcnd_disp:
  "push_bit 2 (signed_drop_bit 16 (push_bit 16 (x AND 0x0000ffff))) = 4 * word_of_int (disp16 x)"
proof -
  have "signed_drop_bit 16 (push_bit 16 (x AND 0x0000ffff)) = signed_take_bit 15 x"
    by (simp only: and_mask16 sext16)
  moreover have "word_of_int (disp16 x) = (signed_take_bit 15 x :: word32)"
    unfolding disp16_def by (rule field16)
  ultimately show ?thesis
    by (simp only: push_bit_eq_mult) simp
qed

text \<open>
  C2. A conditional branch that is executed (its 16-bit field is not zero, so the
  assertion of \<^verbatim>\<open>bcnd\<close> holds) computes a 2-bit condition code from the source
  register: bit 1 is the sign bit, bit 0 is 1 exactly when bits 30 to 0 are all zero (so
  the code is 3 for \<^verbatim>\<open>0x80000000\<close>). The branch counter grows by one. If the bit of the
  mask (the field \<^verbatim>\<open>d\<close>; the code is at most 3, so its low four bits) indexed by the
  code is 1, the fetch pointer becomes the execute pointer plus 4 times the sign-extended
  displacement and the taken-branch counter grows by one; if it is 0, both are unchanged.
\<close>

theorem bcnd_effect:
  assumes "ir p AND 0x0000ffff \<noteq> 0"
  shows "bcnd p =
     Inr (if bit (d p) (cond_code (rg p (s1 p)))
          then p\<lparr>branches := branches p + 1,
                 fip := xip p + 4 * word_of_int (disp16 (ir p)),
                 taken_branches := taken_branches p + 1\<rparr>
          else p\<lparr>branches := branches p + 1\<rparr>)"
  using assms
  by (simp only: bcnd_def Let_def bcnd_disp if_False mask_test bcnd_flag_code)
     simp

lemma cond_code_le: "cond_code r \<le> 3"
  by (simp add: cond_code_def)

theorem bcnd_effect_witness:
  "ir bcnd_example AND 0x0000ffff \<noteq> 0 \<and>
   cond_code (rg bcnd_example (s1 bcnd_example)) = 3 \<and> bit (d bcnd_example) 3 \<and>
   disp16 (ir bcnd_example) = 2 \<and>
   map_sum id (\<lambda>p. (fip p, branches p, taken_branches p)) (bcnd bcnd_example) = Inr (8, 1, 1)"
proof -
  have h: "ir bcnd_example AND 0x0000ffff \<noteq> 0"
    by (simp add: bcnd_example_def init_proc_def)
  have c: "cond_code (rg bcnd_example (s1 bcnd_example)) = 3"
    by (simp add: bcnd_example_def init_proc_def rg_def cond_code_def)
  have b: "bit (d bcnd_example) 3"
    by (simp add: bcnd_example_def init_proc_def)
  have k: "disp16 (ir bcnd_example) = 2"
    by (simp add: bcnd_example_def init_proc_def disp16_def)
  show ?thesis
    using h c b k bcnd_effect [OF h] by (simp add: c k) (simp add: bcnd_example_def init_proc_def)
qed

text \<open>
  With the condition code as the specification words it, \<^verbatim>\<open>0x80000000\<close> has code 2
  (negative, not zero) and mask 8 has bit 2 clear, so the branch would not be taken. The
  program takes it: the fetch pointer goes from 4 to 8 and the taken-branch counter from
  0 to 1.
\<close>

theorem bcnd_spec_code_counterexample:
  "spec_cond_code (rg bcnd_example (s1 bcnd_example)) = 2 \<and>
   \<not> bit (d bcnd_example) 2 \<and>
   (fip bcnd_example, taken_branches bcnd_example) = (4, 0) \<and>
   map_sum id (\<lambda>p. (fip p, taken_branches p)) (bcnd bcnd_example) = Inr (8, 1)"
  by (simp add: bcnd_example_def init_proc_def rg_def spec_cond_code_def bcnd_def
      bcnd_flag_def Let_def)

section \<open>Loading the program image\<close>

lemma get_mem_loop_ok:
  "count + length ws \<le> 256 \<Longrightarrow>
   get_mem_loop ws count p =
     Inr (p\<lparr>mem := (\<lambda>i. if count \<le> i \<and> i < count + length ws then ws ! (i - count)
                          else mem p i)\<rparr>)"
proof (induction ws arbitrary: count p)
  case Nil
  have "(\<lambda>i. if count \<le> i \<and> i < count + length ([] :: word32 list) then [] ! (i - count)
             else mem p i) = mem p"
    by (auto simp: fun_eq_iff)
  then show ?case by simp
next
  case (Cons w ws)
  let ?p = "p\<lparr>mem := (mem p)(count := w)\<rparr>"
  have "(\<lambda>i. if Suc count \<le> i \<and> i < Suc count + length ws then ws ! (i - Suc count)
             else mem ?p i) =
        (\<lambda>i. if count \<le> i \<and> i < count + length (w # ws) then (w # ws) ! (i - count)
             else mem p i)"
    by (auto simp: fun_eq_iff nth_Cons' Suc_diff_le)
  moreover have "get_mem_loop ws (Suc count) ?p =
      Inr (?p\<lparr>mem := (\<lambda>i. if Suc count \<le> i \<and> i < Suc count + length ws
                             then ws ! (i - Suc count) else mem ?p i)\<rparr>)"
    using Cons.prems by (intro Cons.IH) simp
  ultimately show ?case
    using Cons.prems by (simp add: INPUT_WORD_LIMIT_def)
qed

lemma get_mem_loop_overflow:
  "count \<le> 256 \<Longrightarrow> 256 < count + length ws \<Longrightarrow> get_mem_loop ws count p = Inl Too_Many_Words"
proof (induction ws arbitrary: count p)
  case Nil
  then show ?case by simp
next
  case (Cons w ws)
  then show ?case by (simp add: INPUT_WORD_LIMIT_def)
qed

lemma get_mem_ok:
  "length ws \<le> 256 \<Longrightarrow>
   get_mem ws p = Inr (p\<lparr>mem := (\<lambda>i. if i < length ws then ws ! i else mem p i)\<rparr>)"
proof -
  assume "length ws \<le> 256"
  moreover have "(\<lambda>i. if 0 \<le> i \<and> i < 0 + length ws then ws ! (i - 0) else mem p i) =
        (\<lambda>i. if i < length ws then ws ! i else mem p i)"
    by (auto simp: fun_eq_iff)
  ultimately show ?thesis
    using get_mem_loop_ok [of 0 ws p] by (simp add: get_mem_def)
qed

lemma get_mem_overflow: "256 < length ws \<Longrightarrow> get_mem ws p = Inl Too_Many_Words"
  using get_mem_loop_overflow [of 0 ws p] by (simp add: get_mem_def)

text \<open>
  C8. The loader accepts at most 256 words and stores them at the word indices 0, 1, 2,
  \<open>\<dots>\<close>; given more, it ends the process before the first instruction is fetched (for
  every amount of fuel the result is the overflow), through \<^verbatim>\<open>exit( 0 )\<close>: the exit
  code is 0.
\<close>

theorem load_overflow:
  "(256 < length input \<longrightarrow>
      main beyond input fuel = Some (Inl Too_Many_Words) \<and>
      main_c beyond_c input fuel = Some (Inl Too_Many_Words) \<and>
      exit_code Too_Many_Words = Some 0) \<and>
   (length input \<le> 256 \<longrightarrow>
      get_mem input init_proc =
        Inr (init_proc\<lparr>mem := (\<lambda>i. if i < length input then input ! i else 0)\<rparr>))"
proof -
  have "(\<lambda>i. if i < length input then input ! i else mem init_proc i) =
        (\<lambda>i. if i < length input then input ! i else 0)"
    by (auto simp: fun_eq_iff init_proc_def)
  then show ?thesis
    by (simp add: main_def main_c_def get_mem_overflow get_mem_ok)
qed

theorem load_overflow_witness:
  "256 < length (replicate 257 (0::word32)) \<and>
   main (\<lambda>_ _. None) (replicate 257 0) 0 = Some (Inl Too_Many_Words) \<and>
   main_c (\<lambda>_ _. None) (replicate 257 0) 0 = Some (Inl Too_Many_Words) \<and>
   length [5, 6, 7 :: word32] \<le> 256 \<and>
   map_sum id (\<lambda>p. map (mem p) [0, 1, 2, 3]) (get_mem [5, 6, 7] init_proc) = Inr [5, 6, 7, 0]"
proof -
  have a: "256 < length (replicate 257 (0::word32))" by simp
  have b: "length [5, 6, 7 :: word32] \<le> 256" by simp
  show ?thesis
    using a b load_overflow [of "replicate 257 0" "\<lambda>_ _. None" 0 "\<lambda>_ _. None"]
      load_overflow [of "[5, 6, 7]"]
    by simp
qed

text \<open>With 257 words the process ends in the loader, and its exit code is 0, not non-zero.\<close>

theorem load_overflow_exit_counterexample:
  "main (\<lambda>_ _. None) (replicate 257 0) 0 = Some (Inl Too_Many_Words) \<and>
   main_c (\<lambda>_ _. None) (replicate 257 0) 0 = Some (Inl Too_Many_Words) \<and>
   exit_code Too_Many_Words = Some 0"
  by (simp add: main_def main_c_def get_mem_overflow)

section \<open>A load followed by a halt\<close>

lemma loaded_image:
  assumes "length ws \<le> 254"
  shows "\<exists>m. get_mem (a # b # ws) init_proc = Inr (init_proc\<lparr>mem := m\<rparr>) \<and> m 0 = a \<and> m 1 = b"
proof -
  define m where "m = (\<lambda>i. if i < length (a # b # ws) then (a # b # ws) ! i else mem init_proc i)"
  have "get_mem (a # b # ws) init_proc = Inr (init_proc\<lparr>mem := m\<rparr>)"
    unfolding m_def using assms by (intro get_mem_ok) simp
  moreover have "m 0 = a" and "m 1 = b"
    by (simp_all add: m_def)
  ultimately show ?thesis by blast
qed

lemma halt_flag_init: "halt_flag init_proc = 0"
  by (simp add: init_proc_def)

lemma unknown_first:
  "m 0 = 0x5c810010 \<Longrightarrow> cycle beyond (init_proc\<lparr>mem := m\<rparr>) = Inl Unknown_Instruction"
  by (simp add: cycle_def fetch_def init_proc_def MEM_SIZE_IN_WORDS_def decode_def dispatch_def
      unknown_op_def Let_def)

lemma cycle_ld:
  "m 0 = 0x14200010 \<Longrightarrow> cycle beyond (init_proc\<lparr>mem := m\<rparr>) = Inr (after_ld m)"
  by (simp add: cycle_def fetch_def init_proc_def MEM_SIZE_IN_WORDS_def decode_def dispatch_def
      imm_ld_def read_mem_def rg_def Let_def after_ld_def)

lemma cycle_halt:
  "m 1 = 0 \<Longrightarrow> cycle beyond (after_ld m) = Inr (after_halt m)"
  by (simp add: cycle_def fetch_def init_proc_def MEM_SIZE_IN_WORDS_def decode_def dispatch_def
      halt_def Let_def after_ld_def after_halt_def)

lemma halt_flags:
  "halt_flag (init_proc\<lparr>mem := m\<rparr>) = 0" "halt_flag (after_ld m) = 0" "halt_flag (after_halt m) \<noteq> 0"
  by (simp_all add: init_proc_def after_ld_def after_halt_def)

lemma ld_then_halt:
  assumes "m 0 = 0x14200010" and "m 1 = 0"
  shows "run beyond (Suc (Suc n)) (init_proc\<lparr>mem := m\<rparr>) = Some (Inr (after_halt m))"
  by (cases n)
     (simp_all only: run.simps halt_flags cycle_ld cycle_halt assms
        if_True if_False sum.case simp_thms)

lemma statistics_after_halt: "statistics (after_halt m) = (2, 1, 0, 0)"
  by (simp add: statistics_def after_halt_def after_ld_def init_proc_def)

text \<open>
  C6. The word \<^verbatim>\<open>0x5c810010\<close> has primary opcode \<^verbatim>\<open>0x17\<close>, which is no instruction of
  the subset: a run on an image beginning \<^verbatim>\<open>[0x5c810010, 0x00000000, ...]\<close> ends at the
  first instruction through \<^verbatim>\<open>unknown_op\<close>, with exit code -1 and no statistics. The
  load of register 1 from address \<^verbatim>\<open>0x10\<close> relative to register 0 is \<^verbatim>\<open>0x14200010\<close>: a
  run on an image beginning \<^verbatim>\<open>[0x14200010, 0x00000000, ...]\<close> halts after two passes
  and reports 2 instruction fetches, 1 data word read, 0 data words written and 0
  branches.
\<close>

theorem scenario:
  assumes "length ws \<le> 254"
  shows "op1 (decode (init_proc\<lparr>ir := 0x5c810010\<rparr>)) = 0x17 \<and>
         main beyond (0x5c810010 # 0 # ws) (Suc n) = Some (Inl Unknown_Instruction) \<and>
         exit_code Unknown_Instruction = Some (- 1) \<and>
         op1 (decode (init_proc\<lparr>ir := 0x14200010\<rparr>)) = 0x05 \<and>
         map_option (map_sum id statistics) (main beyond (0x14200010 # 0 # ws) (Suc (Suc n)))
           = Some (Inr (2, 1, 0, 0))"
proof -
  obtain m where m: "get_mem (0x5c810010 # 0 # ws) init_proc = Inr (init_proc\<lparr>mem := m\<rparr>)"
      "m 0 = 0x5c810010"
    using loaded_image [OF assms] by blast
  obtain m' where m': "get_mem (0x14200010 # 0 # ws) init_proc = Inr (init_proc\<lparr>mem := m'\<rparr>)"
      "m' 0 = 0x14200010" "m' 1 = 0"
    using loaded_image [OF assms] by blast
  have "main beyond (0x5c810010 # 0 # ws) (Suc n) = Some (Inl Unknown_Instruction)"
    using unknown_first [of m beyond] m(2) by (simp add: main_def m(1) halt_flag_init)
  moreover have "map_option (map_sum id statistics) (main beyond (0x14200010 # 0 # ws) (Suc (Suc n)))
           = Some (Inr (2, 1, 0, 0))"
    using ld_then_halt [of m' beyond n] m'(2,3)
    by (simp add: main_def m'(1) statistics_after_halt)
  moreover have "op1 (decode (init_proc\<lparr>ir := 0x5c810010\<rparr>)) = 0x17"
    and "op1 (decode (init_proc\<lparr>ir := 0x14200010\<rparr>)) = 0x05"
    by (simp_all add: decode_def init_proc_def)
  ultimately show ?thesis by simp
qed

theorem scenario_witness:
  "length [0, 0 :: word32] \<le> 254 \<and>
   main (\<lambda>_ _. None) [0x5c810010, 0, 0, 0] 1 = Some (Inl Unknown_Instruction) \<and>
   map_option (map_sum id statistics) (main (\<lambda>_ _. None) [0x14200010, 0, 0, 0] 2)
     = Some (Inr (2, 1, 0, 0))"
proof -
  have h: "length [0, 0 :: word32] \<le> 254" by simp
  show ?thesis
    using scenario [OF h, of "\<lambda>_ _. None" 0] h by (simp add: numeral_2_eq_2)
qed

text \<open>
  The image \<^verbatim>\<open>[0x5c810010, 0, 0, 0]\<close> does not run to completion: the first word
  decodes to primary opcode \<^verbatim>\<open>0x17\<close> and the run ends with the unknown instruction.
\<close>

theorem scenario_counterexample:
  "op1 (decode (init_proc\<lparr>ir := 0x5c810010\<rparr>)) = 0x17 \<and>
   main (\<lambda>_ _. None) [0x5c810010, 0, 0, 0] 2 = Some (Inl Unknown_Instruction) \<and>
   map_option (map_sum id statistics) (main (\<lambda>_ _. None) [0x5c810010, 0, 0, 0] 2)
     \<noteq> Some (Inr (2, 1, 0, 0))"
proof -
  obtain m where m: "get_mem [0x5c810010, 0, 0, 0] init_proc = Inr (init_proc\<lparr>mem := m\<rparr>)"
      "m 0 = 0x5c810010"
    using loaded_image [of "[0, 0]" "0x5c810010" 0] by auto
  have "main (\<lambda>_ _. None) [0x5c810010, 0, 0, 0] 2 = Some (Inl Unknown_Instruction)"
    using unknown_first [of m "\<lambda>_ _. None"] m(2)
    by (simp add: main_def m(1) numeral_2_eq_2 halt_flag_init)
  moreover have "op1 (decode (init_proc\<lparr>ir := 0x5c810010\<rparr>)) = 0x17"
    by (simp add: decode_def init_proc_def)
  ultimately show ?thesis by simp
qed

section \<open>The two variants\<close>























end
